theory Spec2Isabelle
  imports Main "HOL-Library.Word"
begin

section \<open>Data model of the crawler engine\<close>

text \<open>
  The engine (package \<open>crawl\<close>) is modelled by explicit state passing. Go's \<open>int\<close>
  is a 64-bit two's-complement word: \<open>+\<close> wraps and comparisons read it with \<open>sint\<close>.
  Byte slices and strings are both \<open>string\<close>. A \<open>time.Time\<close> is an instant counted
  from the zero time, so the zero value is \<open>0\<close>.
\<close>

type_synonym go_int = "64 word"
type_synonym go_time = int

text \<open>
  Go \<open>error\<close> values: \<open>nil\<close> is \<open>None\<close>. \<open>ErrRetryRequest\<close> is the sentinel of the
  package, \<open>ErrNotFound\<close> the one of the key-value store; the \<open>switch err\<close> of
  \<open>handleURL\<close> compares by identity, which is equality of constructors here.
\<close>

datatype error = ErrRetryRequest | ErrNotFound | ErrOther string

text \<open>
  The ways the process stops: \<open>panic(err)\<close> in \<open>normalizeURL\<close>, a nil pointer
  dereference (a handler reading the response when the fetcher returned neither a
  response nor an error), and \<open>log.Fatalf\<close> in \<open>handleURL\<close> (with the URL and the
  handler's error).
\<close>

datatype abort = Panic error | NilDereference | LogFatal string error

datatype 'a exec = Ret 'a | Abort abort

text \<open>The type of URLs (\<open>*url.URL\<close>) is a parameter \<open>'u\<close>: the code only hands URLs to libraries.\<close>

record 'u Outlink =
  link_URL :: 'u
  link_Tag :: go_int

definition TagPrimary :: go_int where
  "TagPrimary = 0"

definition TagRelated :: go_int where
  "TagRelated = 1"

record URLInfo =
  info_URL :: string
  info_StatusCode :: go_int
  info_CrawledAt :: go_time
  info_Error :: string

text \<open>The zero value that \<open>var info URLInfo\<close> declares.\<close>

definition URLInfo_zero :: URLInfo where
  "URLInfo_zero = \<lparr>info_URL = [], info_StatusCode = 0, info_CrawledAt = 0, info_Error = []\<rparr>"

record queueItem =
  item_URL :: string
  item_Depth :: go_int

text \<open>
  Of an \<open>*http.Response\<close> the engine reads the status code, the \<open>Location\<close> header
  (\<open>Header.Get\<close> gives the empty string when the header is absent) and the URL of the
  request, which a response of the HTTP client always carries. The body is not modelled;
  handlers are taken not to change these three fields.
\<close>

record 'u Response =
  resp_StatusCode :: go_int
  resp_Location :: string
  resp_RequestURL :: 'u

section \<open>The world outside the package\<close>

text \<open>
  Every call the engine makes to the key-value store and to the job queue is recorded in
  \<open>calls\<close>, oldest first. What the process prints or logs is recorded in \<open>outlog\<close>.
\<close>

datatype call = DBGet string | DBPut string string | QueueAdd string string

datatype outline = Printed string | LogDecodeError error | LogLocationError error

text \<open>
  The state the crawler owns: \<open>kv\<close> is the content of the LevelDB database under the
  keys of the object store, \<open>frontier\<close> the entries (tag, payload) added to the job queue,
  in the order of their \<open>Add\<close>.
\<close>

record cstate =
  kv :: "string \<rightharpoonup> string"
  frontier :: "(string \<times> string) list"
  calls :: "call list"
  outlog :: "outline list"

text \<open>
  The libraries and injected collaborators of a \<open>Crawler\<close>, as functions:
  \<open>purell.NormalizeURL\<close> with the flags of \<open>normalizeURL\<close>, \<open>url.Parse\<close>,
  \<open>(*URL).String\<close>, the field \<open>Host\<close>, \<open>(*URL).Parse\<close> (reference resolution), the
  \<open>Check\<close> method of the crawler's \<open>Scope\<close>, the gob codec at type \<open>URLInfo\<close>
  (\<open>Decode\<close> writes into the object it is given and may fail after a partial write),
  the JSON codec at type \<open>queueItem\<close>, and \<open>io_fault\<close>: given the calls made so far and
  the call being made to the store or the queue, the error it fails with, if any.
\<close>

record 'u deps =
  purell_NormalizeURL :: "'u \<Rightarrow> string"
  url_Parse :: "string \<Rightarrow> error + 'u"
  url_String :: "'u \<Rightarrow> string"
  url_Host :: "'u \<Rightarrow> string"
  url_ResolveReference :: "'u \<Rightarrow> string \<Rightarrow> error + 'u"
  scope_Check :: "'u Outlink \<Rightarrow> go_int \<Rightarrow> bool"
  gob_Encode :: "URLInfo \<Rightarrow> error + string"
  gob_Decode :: "string \<Rightarrow> URLInfo \<Rightarrow> error option \<times> URLInfo"
  json_Marshal :: "queueItem \<Rightarrow> error + string"
  json_Unmarshal :: "string \<Rightarrow> error + queueItem"
  io_fault :: "call list \<Rightarrow> call \<Rightarrow> error option"

text \<open>
  LevelDB \<open>Get\<close> and \<open>Put\<close>, and the queue's \<open>Add\<close>: an operation that fails changes
  neither the database nor the queue; a \<open>Get\<close> of an absent key is \<open>ErrNotFound\<close>.
\<close>

definition leveldb_Get ::
  "(call list \<Rightarrow> call \<Rightarrow> error option) \<Rightarrow> cstate \<Rightarrow> string \<Rightarrow> (error + string) \<times> cstate" where
  "leveldb_Get fault s key =
     (let s' = s\<lparr>calls := calls s @ [DBGet key]\<rparr> in
      case fault (calls s) (DBGet key) of
        Some e \<Rightarrow> (Inl e, s')
      | None \<Rightarrow> (case kv s key of None \<Rightarrow> (Inl ErrNotFound, s') | Some data \<Rightarrow> (Inr data, s')))"

definition leveldb_Put ::
  "(call list \<Rightarrow> call \<Rightarrow> error option) \<Rightarrow> cstate \<Rightarrow> string \<Rightarrow> string \<Rightarrow> error option \<times> cstate" where
  "leveldb_Put fault s key data =
     (case fault (calls s) (DBPut key data) of
        Some e \<Rightarrow> (Some e, s\<lparr>calls := calls s @ [DBPut key data]\<rparr>)
      | None \<Rightarrow> (None, s\<lparr>kv := (kv s)(key \<mapsto> data), calls := calls s @ [DBPut key data]\<rparr>))"

definition queue_Add ::
  "(call list \<Rightarrow> call \<Rightarrow> error option) \<Rightarrow> cstate \<Rightarrow> string \<Rightarrow> string \<Rightarrow> error option \<times> cstate" where
  "queue_Add fault s tag data =
     (case fault (calls s) (QueueAdd tag data) of
        Some e \<Rightarrow> (Some e, s\<lparr>calls := calls s @ [QueueAdd tag data]\<rparr>)
      | None \<Rightarrow>
          (None, s\<lparr>frontier := frontier s @ [(tag, data)], calls := calls s @ [QueueAdd tag data]\<rparr>))"

section \<open>The object store adapter \<open>gobDB\<close>\<close>

text \<open>\<open>PutObj\<close>: encode, return the encoder's error, else \<open>Put\<close> the bytes under the key.\<close>

definition PutObj ::
  "(call list \<Rightarrow> call \<Rightarrow> error option) \<Rightarrow> ('a \<Rightarrow> error + string) \<Rightarrow>
     cstate \<Rightarrow> string \<Rightarrow> 'a \<Rightarrow> error option \<times> cstate" where
  "PutObj fault encode s key obj =
     (case encode obj of
        Inl err \<Rightarrow> (Some err, s)
      | Inr b \<Rightarrow> leveldb_Put fault s key b)"

text \<open>
  \<open>GetObj\<close>: \<open>Get\<close> the bytes, return the store's error, else decode into \<open>obj\<close>. The
  result is the error and the object as the call leaves it.
\<close>

definition GetObj ::
  "(call list \<Rightarrow> call \<Rightarrow> error option) \<Rightarrow> (string \<Rightarrow> 'a \<Rightarrow> error option \<times> 'a) \<Rightarrow>
     cstate \<Rightarrow> string \<Rightarrow> 'a \<Rightarrow> (error option \<times> 'a) \<times> cstate" where
  "GetObj fault decode s key obj =
     (case leveldb_Get fault s key of
        (Inl err, s') \<Rightarrow> ((Some err, obj), s')
      | (Inr data, s') \<Rightarrow>
          (case decode data obj of
             (Some err, obj') \<Rightarrow> ((Some err, obj'), s')
           | (None, obj') \<Rightarrow> ((None, obj'), s')))"

section \<open>Enqueue\<close>

definition normalizeURL :: "'u deps \<Rightarrow> 'u \<Rightarrow> 'u exec" where
  "normalizeURL c u =
     (let urlStr = purell_NormalizeURL c u in
      case url_Parse c urlStr of
        Inl err \<Rightarrow> Abort (Panic err)
      | Inr u2 \<Rightarrow> Ret u2)"

definition addNewURLToQueue ::
  "'u deps \<Rightarrow> cstate \<Rightarrow> 'u \<Rightarrow> go_int \<Rightarrow> error option \<times> cstate" where
  "addNewURLToQueue c s uri depth =
     (case json_Marshal c \<lparr>item_URL = url_String c uri, item_Depth = depth\<rparr> of
        Inl err \<Rightarrow> (Some err, s)
      | Inr data \<Rightarrow> queue_Add (io_fault c) s (url_Host c uri) data)"

text \<open>
  \<open>Enqueue\<close>. The enqueue mutex serialises the calls, so a call is one step from state
  to state. \<open>info\<close> is what \<open>GetObj\<close> left in the zero \<open>URLInfo\<close>.
\<close>

definition Enqueue ::
  "'u deps \<Rightarrow> cstate \<Rightarrow> 'u Outlink \<Rightarrow> go_int \<Rightarrow> error option exec \<times> cstate" where
  "Enqueue c s link depth =
     (case normalizeURL c (link_URL link) of
        Abort a \<Rightarrow> (Abort a, s)
      | Ret u \<Rightarrow>
          (let link = link\<lparr>link_URL := u\<rparr> in
           if \<not> scope_Check c link depth then (Ret None, s)
           else
             (let ukey = ''url/'' @ url_String c (link_URL link) in
              case GetObj (io_fault c) (gob_Decode c) s ukey URLInfo_zero of
                ((None, info), s1) \<Rightarrow> (Ret None, s1)
              | ((Some _, info), s1) \<Rightarrow>
                  (case addNewURLToQueue c s1 (link_URL link) depth of
                     (Some err, s2) \<Rightarrow> (Ret (Some err), s2)
                   | (None, s2) \<Rightarrow>
                       (case PutObj (io_fault c) (gob_Encode c) s2 ukey info of
                          (r, s3) \<Rightarrow> (Ret r, s3))))))"

text \<open>
  A sequence of \<open>Enqueue\<close> calls, one after the other. The log has one entry for each
  call made: the outlink and depth it was given, its result, and the calls it made to
  the database and the queue. A call that stops the process ends the sequence.
\<close>

type_synonym 'u enq_call = "'u Outlink \<times> go_int \<times> error option exec \<times> call list"

fun Enqueue_log ::
  "'u deps \<Rightarrow> cstate \<Rightarrow> ('u Outlink \<times> go_int) list \<Rightarrow> 'u enq_call list \<times> cstate" where
  "Enqueue_log c s [] = ([], s)"
| "Enqueue_log c s ((link, depth) # rest) =
     (case Enqueue c s link depth of
        (Abort a, s1) \<Rightarrow> ([(link, depth, Abort a, drop (length (calls s)) (calls s1))], s1)
      | (Ret r, s1) \<Rightarrow>
          (case Enqueue_log c s1 rest of
             (log, s2) \<Rightarrow> ((link, depth, Ret r, drop (length (calls s)) (calls s1)) # log, s2)))"

fun call_request :: "'u enq_call \<Rightarrow> 'u Outlink \<times> go_int" where
  "call_request (link, depth, r, cs) = (link, depth)"

fun call_result :: "'u enq_call \<Rightarrow> error option exec" where
  "call_result (link, depth, r, cs) = r"

fun call_calls :: "'u enq_call \<Rightarrow> call list" where
  "call_calls (link, depth, r, cs) = cs"

section \<open>Handlers and workers\<close>

text \<open>
  A \<open>Handler\<close> receives the crawler (its collaborators and its state), the URL, the depth,
  the response (or nil) and the fetch error (or nil); it returns an error (or nil) and
  the state it leaves, or stops the process. It reaches the state only through the
  crawler, that is through \<open>Enqueue\<close>. A \<open>Fetcher\<close> maps a URL to a response and an
  error: what the network answers to the one \<open>Fetch\<close> of a \<open>handleURL\<close>.
\<close>

type_synonym 'u Handler =
  "'u deps \<Rightarrow> cstate \<Rightarrow> string \<Rightarrow> go_int \<Rightarrow> 'u Response option \<Rightarrow> error option \<Rightarrow>
     error option exec \<times> cstate"

type_synonym 'u Fetcher = "string \<Rightarrow> 'u Response option \<times> error option"

text \<open>
  The end of \<open>handleURL\<close>, from the call of the handler on: the \<open>switch\<close> on the
  handler's error, then the write of the record.
\<close>

definition handleURL_handle ::
  "'u deps \<Rightarrow> 'u Handler \<Rightarrow> cstate \<Rightarrow> queueItem \<Rightarrow> string \<Rightarrow> URLInfo \<Rightarrow>
     'u Response option \<Rightarrow> error option \<Rightarrow> error option exec \<times> cstate" where
  "handleURL_handle c handler s item urlkey info httpResp httpErr =
     (case handler c s (item_URL item) (item_Depth item) httpResp httpErr of
        (Abort a, s1) \<Rightarrow> (Abort a, s1)
      | (Ret None, s1) \<Rightarrow>
          (case PutObj (io_fault c) (gob_Encode c) s1 urlkey info of (r, s2) \<Rightarrow> (Ret r, s2))
      | (Ret (Some err), s1) \<Rightarrow>
          (if err = ErrRetryRequest then (Ret (Some err), s1)
           else (Abort (LogFatal (item_URL item) err), s1)))"

definition handleURL ::
  "'u deps \<Rightarrow> 'u Fetcher \<Rightarrow> 'u Handler \<Rightarrow> go_time \<Rightarrow> cstate \<Rightarrow> queueItem \<Rightarrow>
     error option exec \<times> cstate" where
  "handleURL c fetcher handler now s item =
     (let urlkey = ''url/'' @ item_URL item in
      case GetObj (io_fault c) (gob_Decode c) s urlkey URLInfo_zero of
        ((_, info0), s1) \<Rightarrow>
          (let info = info0\<lparr>info_CrawledAt := now, info_URL := item_URL item\<rparr>;
               s2 = s1\<lparr>outlog := outlog s1 @ [Printed (item_URL item)]\<rparr> in
           case fetcher (item_URL item) of
             (httpResp, Some e) \<Rightarrow> handleURL_handle c handler s2 item urlkey info httpResp (Some e)
           | (None, None) \<Rightarrow> (Abort NilDereference, s2)
           | (Some r, None) \<Rightarrow>
               handleURL_handle c handler s2 item urlkey
                 (info\<lparr>info_StatusCode := resp_StatusCode r\<rparr>) (Some r) None))"

definition handleJob ::
  "'u deps \<Rightarrow> 'u Fetcher \<Rightarrow> 'u Handler \<Rightarrow> go_time \<Rightarrow> cstate \<Rightarrow> string \<Rightarrow>
     error option exec \<times> cstate" where
  "handleJob c fetcher handler now s data =
     (case json_Unmarshal c data of
        Inl err \<Rightarrow> (Ret None, s\<lparr>outlog := outlog s @ [LogDecodeError err]\<rparr>)
      | Inr item \<Rightarrow> handleURL c fetcher handler now s item)"

section \<open>Handler middleware\<close>

definition FollowRedirects :: "'u Handler \<Rightarrow> 'u Handler" where
  "FollowRedirects wrap = (\<lambda>c s u depth resp err.
     case wrap c s u depth resp err of
       (Abort a, s1) \<Rightarrow> (Abort a, s1)
     | (Ret (Some herr), s1) \<Rightarrow> (Ret (Some herr), s1)
     | (Ret None, s1) \<Rightarrow>
         (case err of
            Some _ \<Rightarrow> (Ret None, s1)
          | None \<Rightarrow>
              (case resp of
                 None \<Rightarrow> (Abort NilDereference, s1)
               | Some r \<Rightarrow>
                   (let location = resp_Location r in
                    if 300 \<le> sint (resp_StatusCode r) \<and> sint (resp_StatusCode r) < 400
                       \<and> location \<noteq> []
                    then
                      (case url_ResolveReference c (resp_RequestURL r) location of
                         Inl uerr \<Rightarrow> (Ret None, s1\<lparr>outlog := outlog s1 @ [LogLocationError uerr]\<rparr>)
                       | Inr locationURL \<Rightarrow>
                           Enqueue c s1 \<lparr>link_URL = locationURL, link_Tag = TagPrimary\<rparr> (depth + 1))
                    else (Ret None, s1)))))"

definition FilterErrors :: "'u Handler \<Rightarrow> 'u Handler" where
  "FilterErrors wrap = (\<lambda>c s u depth resp err.
     case err of
       Some _ \<Rightarrow> (Ret None, s)
     | None \<Rightarrow>
         (case resp of
            None \<Rightarrow> (Abort NilDereference, s)
          | Some r \<Rightarrow>
              if 400 \<le> sint (resp_StatusCode r) then (Ret None, s)
              else wrap c s u depth resp None))"

definition HandleRetries :: "'u Handler \<Rightarrow> 'u Handler" where
  "HandleRetries wrap = (\<lambda>c s u depth resp err.
     case err of
       Some _ \<Rightarrow> (Ret (Some ErrRetryRequest), s)
     | None \<Rightarrow>
         (case resp of
            None \<Rightarrow> (Abort NilDereference, s)
          | Some r \<Rightarrow>
              if resp_StatusCode r = 429 \<or> 500 \<le> sint (resp_StatusCode r)
              then (Ret (Some ErrRetryRequest), s)
              else wrap c s u depth resp None))"

section \<open>Notions used to state the properties\<close>

text \<open>The \<open>Add\<close> calls among the calls made, as (tag, payload), oldest first.\<close>

fun queue_Adds :: "call list \<Rightarrow> (string \<times> string) list" where
  "queue_Adds [] = []"
| "queue_Adds (QueueAdd tag data # cs) = (tag, data) # queue_Adds cs"
| "queue_Adds (DBGet key # cs) = queue_Adds cs"
| "queue_Adds (DBPut key data # cs) = queue_Adds cs"

text \<open>
  The canonical string form under which \<open>Enqueue\<close> knows a URL: the \<open>String\<close> of
  \<open>normalizeURL\<close>. \<open>in_scope\<close> is the scope check as \<open>Enqueue\<close> makes it, on the outlink
  with its URL replaced by the normalized one.
\<close>

definition canonical :: "'u deps \<Rightarrow> 'u \<Rightarrow> string option" where
  "canonical c u = (case normalizeURL c u of Ret u2 \<Rightarrow> Some (url_String c u2) | Abort a \<Rightarrow> None)"

definition in_scope :: "'u deps \<Rightarrow> 'u Outlink \<Rightarrow> go_int \<Rightarrow> bool" where
  "in_scope c link depth =
     (case normalizeURL c (link_URL link) of
        Ret u \<Rightarrow> scope_Check c (link\<lparr>link_URL := u\<rparr>) depth
      | Abort a \<Rightarrow> False)"

text \<open>
  Every record in the database, and every record the engine ever handed to \<open>Put\<close>, reads
  back (into a zero \<open>URLInfo\<close>) with an empty \<open>Error\<close> field.
\<close>

definition records_without_Error :: "'u deps \<Rightarrow> cstate \<Rightarrow> bool" where
  "records_without_Error c s =
     ((\<forall>key b. kv s key = Some b \<longrightarrow> info_Error (snd (gob_Decode c b URLInfo_zero)) = [])
    \<and> (\<forall>key b. DBPut key b \<in> set (calls s) \<longrightarrow>
          info_Error (snd (gob_Decode c b URLInfo_zero)) = []))"

section \<open>A concrete crawler\<close>

text \<open>
  A small instance on which the theorems are evaluated: URLs are strings,
  normalization drops the fragment, the scope is a depth scope of 10, and the codecs are
  one-byte tags in front of a field. \<open>fail_Put\<close> and \<open>fail_Add\<close> are a database that
  refuses writes and a queue that refuses entries.
\<close>

definition demo_Host :: "string \<Rightarrow> string" where
  "demo_Host u = takeWhile (\<lambda>ch. ch \<noteq> CHR ''/'') (drop 7 u)"

definition demo_Unmarshal :: "string \<Rightarrow> error + queueItem" where
  "demo_Unmarshal data =
     (case data of
        [] \<Rightarrow> Inl (ErrOther ''unexpected end of JSON input'')
      | ch # rest \<Rightarrow>
          if ch = CHR ''{'' then Inr \<lparr>item_URL = rest, item_Depth = 0\<rparr>
          else Inl (ErrOther ''invalid character''))"

definition demo_Decode :: "string \<Rightarrow> URLInfo \<Rightarrow> error option \<times> URLInfo" where
  "demo_Decode data obj =
     (case data of
        [] \<Rightarrow> (Some (ErrOther ''EOF''), obj)
      | ch # rest \<Rightarrow>
          if ch = CHR ''G'' then (None, obj\<lparr>info_Error := rest\<rparr>)
          else (Some (ErrOther ''gob: unknown type''), obj))"

definition demo :: "string deps" where
  "demo = \<lparr>
     purell_NormalizeURL = takeWhile (\<lambda>ch. ch \<noteq> CHR ''#''),
     url_Parse = Inr,
     url_String = (\<lambda>u. u),
     url_Host = demo_Host,
     url_ResolveReference =
       (\<lambda>base ref. if ref = ''%'' then Inl (ErrOther ''invalid URL escape'') else Inr ref),
     scope_Check = (\<lambda>link depth. sint depth \<le> 10),
     gob_Encode = (\<lambda>info. Inr (CHR ''G'' # info_Error info)),
     gob_Decode = demo_Decode,
     json_Marshal = (\<lambda>item. Inr (CHR ''{'' # item_URL item)),
     json_Unmarshal = demo_Unmarshal,
     io_fault = (\<lambda>history x. None)\<rparr>"

fun fail_Put :: "call list \<Rightarrow> call \<Rightarrow> error option" where
  "fail_Put history (DBPut key data) = Some (ErrOther ''leveldb: closed'')"
| "fail_Put history (DBGet key) = None"
| "fail_Put history (QueueAdd tag data) = None"

fun fail_Add :: "call list \<Rightarrow> call \<Rightarrow> error option" where
  "fail_Add history (QueueAdd tag data) = Some (ErrOther ''context deadline exceeded'')"
| "fail_Add history (DBGet key) = None"
| "fail_Add history (DBPut key data) = None"

definition init :: cstate where
  "init = \<lparr>kv = Map.empty, frontier = [], calls = [], outlog = []\<rparr>"

definition link_x :: "string Outlink" where
  "link_x = \<lparr>link_URL = ''http://a/x'', link_Tag = TagPrimary\<rparr>"

definition link_x_top :: "string Outlink" where
  "link_x_top = \<lparr>link_URL = ''http://a/x#top'', link_Tag = TagRelated\<rparr>"

definition item_x :: queueItem where
  "item_x = \<lparr>item_URL = ''http://a/x'', item_Depth = 1\<rparr>"

definition resp_200 :: "string Response" where
  "resp_200 = \<lparr>resp_StatusCode = 200, resp_Location = [], resp_RequestURL = ''http://a/x''\<rparr>"

definition resp_301 :: "string Response" where
  "resp_301 = \<lparr>resp_StatusCode = 301, resp_Location = ''http://a/x'', resp_RequestURL = ''http://a/old''\<rparr>"

definition resp_503 :: "string Response" where
  "resp_503 = \<lparr>resp_StatusCode = 503, resp_Location = [], resp_RequestURL = ''http://a/x''\<rparr>"

definition demo_fetch :: "string Fetcher" where
  "demo_fetch u =
     (if u = ''http://a/x'' then (Some resp_200, None)
      else if u = ''http://a/old'' then (Some resp_301, None)
      else (None, Some (ErrOther ''no such host'')))"

text \<open>A handler that prints the URL it is given and returns nil.\<close>

definition visit :: "string Handler" where
  "visit c s u depth resp err = (Ret None, s\<lparr>outlog := outlog s @ [Printed u]\<rparr>)"

section \<open>Notions for sequences of calls\<close>

text \<open>The \<open>Put\<close> calls among the calls made, as (key, bytes), oldest first.\<close>

fun db_Puts :: "call list \<Rightarrow> (string \<times> string) list" where
  "db_Puts [] = []"
| "db_Puts (DBPut key data # cs) = (key, data) # db_Puts cs"
| "db_Puts (DBGet key # cs) = db_Puts cs"
| "db_Puts (QueueAdd tag data # cs) = db_Puts cs"

text \<open>
  In a log: the calls of \<open>Enqueue\<close> on URLs of canonical form \<open>cu\<close>, those of them that
  passed the scope check, and the calls to database and queue that the calls on \<open>cu\<close>
  made.
\<close>

fun on_url :: "'u deps \<Rightarrow> string \<Rightarrow> 'u enq_call \<Rightarrow> bool" where
  "on_url c cu (link, depth, r, cs) = (canonical c (link_URL link) = Some cu)"

fun admitted :: "'u deps \<Rightarrow> string \<Rightarrow> 'u enq_call \<Rightarrow> bool" where
  "admitted c cu (link, depth, r, cs) =
     (canonical c (link_URL link) = Some cu \<and> in_scope c link depth)"

definition calls_on :: "'u deps \<Rightarrow> string \<Rightarrow> 'u enq_call list \<Rightarrow> call list" where
  "calls_on c cu log = concat (map call_calls (filter (on_url c cu) log))"

text \<open>
  The frontier entry that \<open>addNewURLToQueue\<close> makes for an outlink at a depth: the host of
  the normalized URL as tag, the marshalled \<open>queueItem\<close> as payload.
\<close>

definition queue_entry :: "'u deps \<Rightarrow> 'u Outlink \<Rightarrow> go_int \<Rightarrow> (string \<times> string) option" where
  "queue_entry c link depth =
     (case normalizeURL c (link_URL link) of
        Abort a \<Rightarrow> None
      | Ret u \<Rightarrow>
          (case json_Marshal c \<lparr>item_URL = url_String c u, item_Depth = depth\<rparr> of
             Inl err \<Rightarrow> None
           | Inr data \<Rightarrow> Some (url_Host c u, data)))"

definition link_y :: "string Outlink" where
  "link_y = \<lparr>link_URL = ''http://b/y'', link_Tag = TagPrimary\<rparr>"

definition mixed_calls :: "(string Outlink \<times> go_int) list" where
  "mixed_calls = [(link_x, 11), (link_y, 1), (link_x_top, 3), (link_y, 2), (link_x, 4)]"

text \<open>The concrete crawler with a payload that carries the depth, in unary, before the URL.\<close>

definition demo_Marshal_depth :: "queueItem \<Rightarrow> error + string" where
  "demo_Marshal_depth item =
     Inr (replicate (unat (item_Depth item)) (CHR ''+'') @ CHR ''{'' # item_URL item)"

definition demo_depth :: "string deps" where
  "demo_depth = demo\<lparr>json_Marshal := demo_Marshal_depth\<rparr>"

section \<open>A codec in the manner of gob\<close>














section \<open>Enqueue: scope, deduplication and queue failures\<close>

lemma queue_Adds_append: "queue_Adds (xs @ ys) = queue_Adds xs @ queue_Adds ys"
  by (induction xs rule: queue_Adds.induct) simp_all

lemma canonicalD:
  "canonical c u = Some cu \<Longrightarrow> \<exists>u2. normalizeURL c u = Ret u2 \<and> url_String c u2 = cu"
  by (auto simp: canonical_def split: exec.splits)

text \<open>A call on a URL whose record is in the database and decodes: one \<open>Get\<close> at most.\<close>

lemma Enqueue_known:
  assumes "normalizeURL c (link_URL link) = Ret u"
    and "io_fault c (calls s) (DBGet (''url/'' @ url_String c u)) = None"
    and "kv s (''url/'' @ url_String c u) = Some b"
    and "fst (gob_Decode c b URLInfo_zero) = None"
  shows "Enqueue c s link depth =
           (Ret None,
            if scope_Check c (link\<lparr>link_URL := u\<rparr>) depth
            then s\<lparr>calls := calls s @ [DBGet (''url/'' @ url_String c u)]\<rparr> else s)"
  using assms
  by (auto simp: Enqueue_def GetObj_def leveldb_Get_def Let_def split: prod.splits option.splits)

text \<open>A call in scope on a URL with no record, when nothing fails: \<open>Get\<close>, \<open>Add\<close>, \<open>Put\<close>.\<close>

lemma Enqueue_new:
  assumes "normalizeURL c (link_URL link) = Ret u"
    and "scope_Check c (link\<lparr>link_URL := u\<rparr>) depth"
    and "\<forall>h x. io_fault c h x = None"
    and "kv s (''url/'' @ url_String c u) = None"
    and "json_Marshal c \<lparr>item_URL = url_String c u, item_Depth = depth\<rparr> = Inr data"
    and "gob_Encode c URLInfo_zero = Inr b0"
  shows "Enqueue c s link depth =
           (Ret None,
            s\<lparr>kv := (kv s)(''url/'' @ url_String c u \<mapsto> b0),
              frontier := frontier s @ [(url_Host c u, data)],
              calls := calls s @ [DBGet (''url/'' @ url_String c u),
                                  QueueAdd (url_Host c u) data,
                                  DBPut (''url/'' @ url_String c u) b0]\<rparr>)"
  using assms
  by (simp add: Enqueue_def GetObj_def leveldb_Get_def Let_def addNewURLToQueue_def
      queue_Add_def PutObj_def leveldb_Put_def)

lemma db_Puts_append: "db_Puts (xs @ ys) = db_Puts xs @ db_Puts ys"
  by (induction xs rule: db_Puts.induct) simp_all

text \<open>Whatever fails, a call only appends to the calls made, and a successful \<open>Add\<close> is what grows the frontier.\<close>

lemma Enqueue_appends:
  "\<exists>d. calls (snd (Enqueue c s link depth)) = calls s @ d"
  by (auto simp: Enqueue_def GetObj_def leveldb_Get_def Let_def addNewURLToQueue_def
      queue_Add_def PutObj_def leveldb_Put_def normalizeURL_def
      split: prod.splits option.splits sum.splits exec.splits)

lemma Enqueue_frontier:
  assumes "\<forall>h x. io_fault c h x = None"
  shows "frontier (snd (Enqueue c s link depth))
           = frontier s @ queue_Adds (drop (length (calls s)) (calls (snd (Enqueue c s link depth))))"
  using assms
  by (auto simp: Enqueue_def GetObj_def leveldb_Get_def Let_def addNewURLToQueue_def
      queue_Add_def PutObj_def leveldb_Put_def normalizeURL_def
      split: prod.splits option.splits sum.splits exec.splits)

lemma Enqueue_other_key:
  assumes "canonical c (link_URL link) \<noteq> Some cu"
  shows "kv (snd (Enqueue c s link depth)) (''url/'' @ cu) = kv s (''url/'' @ cu)"
  using assms
  by (auto simp: Enqueue_def GetObj_def leveldb_Get_def Let_def addNewURLToQueue_def
      queue_Add_def PutObj_def leveldb_Put_def normalizeURL_def canonical_def
      split: prod.splits option.splits sum.splits exec.splits)

lemma Enqueue_log_Cons:
  assumes "Enqueue_log c s ((link, depth) # rest) = (log, s')"
  obtains a where "Enqueue c s link depth = (Abort a, s')"
      "log = [(link, depth, Abort a, drop (length (calls s)) (calls s'))]"
  | r s1 log1 where "Enqueue c s link depth = (Ret r, s1)"
      "Enqueue_log c s1 rest = (log1, s')"
      "log = (link, depth, Ret r, drop (length (calls s)) (calls s1)) # log1"
  using assms
  by (auto split: prod.splits exec.splits)

lemma Enqueue_log_structure:
  "Enqueue_log c s reqs = (log, s') \<Longrightarrow>
     map call_request log = take (length log) reqs
     \<and> ((\<forall>x \<in> set log. \<forall>a. call_result x \<noteq> Abort a) \<longrightarrow> length log = length reqs)
     \<and> calls s' = calls s @ concat (map call_calls log)"
proof (induction reqs arbitrary: s log)
  case Nil
  then show ?case by simp
next
  case (Cons req rest)
  obtain link depth where req: "req = (link, depth)" by (cases req)
  from Cons.prems [unfolded req] show ?case
  proof (cases rule: Enqueue_log_Cons)
    case (1 a)
    obtain d where "calls (snd (Enqueue c s link depth)) = calls s @ d"
      using Enqueue_appends by blast
    then show ?thesis using 1 by (simp add: req)
  next
    case (2 r s1 log1)
    obtain d where d: "calls (snd (Enqueue c s link depth)) = calls s @ d"
      using Enqueue_appends by blast
    have "map call_request log1 = take (length log1) rest
      \<and> ((\<forall>x \<in> set log1. \<forall>a. call_result x \<noteq> Abort a) \<longrightarrow> length log1 = length rest)
      \<and> calls s' = calls s1 @ concat (map call_calls log1)"
      using Cons.IH [OF 2(2)] .
    then show ?thesis using 2 d by (simp add: req)
  qed
qed

lemma Enqueue_log_frontier:
  assumes nofault: "\<forall>h x. io_fault c h x = None"
  shows "Enqueue_log c s reqs = (log, s') \<Longrightarrow>
     frontier s' = frontier s @ queue_Adds (concat (map call_calls log))"
proof (induction reqs arbitrary: s log)
  case Nil
  then show ?case by simp
next
  case (Cons req rest)
  obtain link depth where req: "req = (link, depth)" by (cases req)
  have step: "frontier (snd (Enqueue c s link depth))
           = frontier s @ queue_Adds (drop (length (calls s)) (calls (snd (Enqueue c s link depth))))"
    using Enqueue_frontier [OF nofault] .
  from Cons.prems [unfolded req] show ?case
  proof (cases rule: Enqueue_log_Cons)
    case (1 a)
    then show ?thesis using step by simp
  next
    case (2 r s1 log1)
    have "frontier s' = frontier s1 @ queue_Adds (concat (map call_calls log1))"
      using Cons.IH [OF 2(2)] .
    then show ?thesis using 2 step by (simp add: queue_Adds_append)
  qed
qed

lemma calls_on_Cons:
  "calls_on c cu (x # log) = (if on_url c cu x then call_calls x else []) @ calls_on c cu log"
  by (simp add: calls_on_def)

lemma Enqueue_step_known:
  assumes nofault: "\<forall>h x. io_fault c h x = None"
    and dec: "fst (gob_Decode c b0 URLInfo_zero) = None"
    and known: "kv s (''url/'' @ cu) = Some b0"
    and on: "canonical c (link_URL link) = Some cu"
  shows "fst (Enqueue c s link depth) = Ret None
       \<and> kv (snd (Enqueue c s link depth)) (''url/'' @ cu) = Some b0
       \<and> queue_Adds (drop (length (calls s)) (calls (snd (Enqueue c s link depth)))) = []
       \<and> db_Puts (drop (length (calls s)) (calls (snd (Enqueue c s link depth)))) = []"
proof -
  from on obtain u where u: "normalizeURL c (link_URL link) = Ret u" "url_String c u = cu"
    by (auto dest: canonicalD)
  have "Enqueue c s link depth =
          (Ret None,
           if scope_Check c (link\<lparr>link_URL := u\<rparr>) depth
           then s\<lparr>calls := calls s @ [DBGet (''url/'' @ url_String c u)]\<rparr> else s)"
    using Enqueue_known [of c link u s b0 depth] u nofault dec known by simp
  then show ?thesis using known u(2) by simp
qed

lemma Enqueue_step_rejected:
  assumes on: "canonical c (link_URL link) = Some cu"
    and out: "\<not> in_scope c link depth"
  shows "Enqueue c s link depth = (Ret None, s)"
  using assms
  by (auto simp: Enqueue_def canonical_def in_scope_def split: exec.splits)

lemma Enqueue_step_admitted:
  assumes nofault: "\<forall>h x. io_fault c h x = None"
    and enc: "gob_Encode c URLInfo_zero = Inr b0"
    and marshal: "\<forall>d. \<exists>data. json_Marshal c \<lparr>item_URL = cu, item_Depth = d\<rparr> = Inr data"
    and unknown: "kv s (''url/'' @ cu) = None"
    and on: "canonical c (link_URL link) = Some cu"
    and inside: "in_scope c link depth"
  shows "fst (Enqueue c s link depth) = Ret None
       \<and> kv (snd (Enqueue c s link depth)) (''url/'' @ cu) = Some b0
       \<and> map Some (queue_Adds (drop (length (calls s)) (calls (snd (Enqueue c s link depth)))))
           = [queue_entry c link depth]
       \<and> db_Puts (drop (length (calls s)) (calls (snd (Enqueue c s link depth))))
           = [(''url/'' @ cu, b0)]"
proof -
  from on obtain u where u: "normalizeURL c (link_URL link) = Ret u" "url_String c u = cu"
    by (auto dest: canonicalD)
  have scope: "scope_Check c (link\<lparr>link_URL := u\<rparr>) depth"
    using inside u by (simp add: in_scope_def)
  from marshal obtain data where
    data: "json_Marshal c \<lparr>item_URL = url_String c u, item_Depth = depth\<rparr> = Inr data"
    using u(2) by blast
  have entry: "queue_entry c link depth = Some (url_Host c u, data)"
    using u data by (simp add: queue_entry_def)
  have "Enqueue c s link depth =
           (Ret None,
            s\<lparr>kv := (kv s)(''url/'' @ url_String c u \<mapsto> b0),
              frontier := frontier s @ [(url_Host c u, data)],
              calls := calls s @ [DBGet (''url/'' @ url_String c u),
                                  QueueAdd (url_Host c u) data,
                                  DBPut (''url/'' @ url_String c u) b0]\<rparr>)"
    using Enqueue_new [OF u(1) scope nofault _ data enc] unknown u(2) by simp
  then show ?thesis using entry u(2) by simp
qed

lemma Enqueue_log_known:
  assumes nofault: "\<forall>h x. io_fault c h x = None"
    and dec: "fst (gob_Decode c b0 URLInfo_zero) = None"
  shows "Enqueue_log c s reqs = (log, s') \<Longrightarrow> kv s (''url/'' @ cu) = Some b0 \<Longrightarrow>
     (\<forall>x \<in> set log. on_url c cu x \<longrightarrow> call_result x = Ret None)
     \<and> queue_Adds (calls_on c cu log) = [] \<and> db_Puts (calls_on c cu log) = []
     \<and> kv s' (''url/'' @ cu) = Some b0"
proof (induction reqs arbitrary: s log)
  case Nil
  then show ?case by (simp add: calls_on_def)
next
  case (Cons req rest)
  obtain link depth where req: "req = (link, depth)" by (cases req)
  have step: "kv (snd (Enqueue c s link depth)) (''url/'' @ cu) = Some b0
     \<and> (canonical c (link_URL link) = Some cu \<longrightarrow>
          fst (Enqueue c s link depth) = Ret None
        \<and> queue_Adds (drop (length (calls s)) (calls (snd (Enqueue c s link depth)))) = []
        \<and> db_Puts (drop (length (calls s)) (calls (snd (Enqueue c s link depth)))) = [])"
    using Enqueue_step_known [OF nofault dec Cons.prems(2)]
      Enqueue_other_key [of c link cu s depth] Cons.prems(2)
    by (cases "canonical c (link_URL link) = Some cu") simp_all
  from Cons.prems(1) [unfolded req] show ?case
  proof (cases rule: Enqueue_log_Cons)
    case (1 a)
    then show ?thesis using step by (auto simp: calls_on_Cons calls_on_def)
  next
    case (2 r s1 log1)
    have s1: "kv s1 (''url/'' @ cu) = Some b0"
      using step 2(1) by simp
    have "(\<forall>x \<in> set log1. on_url c cu x \<longrightarrow> call_result x = Ret None)
     \<and> queue_Adds (calls_on c cu log1) = [] \<and> db_Puts (calls_on c cu log1) = []
     \<and> kv s' (''url/'' @ cu) = Some b0"
      using Cons.IH [OF 2(2) s1] .
    then show ?thesis
      using 2 step by (auto simp: calls_on_Cons queue_Adds_append db_Puts_append)
  qed
qed

lemma Enqueue_log_unknown:
  assumes nofault: "\<forall>h x. io_fault c h x = None"
    and enc: "gob_Encode c URLInfo_zero = Inr b0"
    and dec: "fst (gob_Decode c b0 URLInfo_zero) = None"
    and marshal: "\<forall>d. \<exists>data. json_Marshal c \<lparr>item_URL = cu, item_Depth = d\<rparr> = Inr data"
  shows "Enqueue_log c s reqs = (log, s') \<Longrightarrow> kv s (''url/'' @ cu) = None \<Longrightarrow>
     (\<forall>x \<in> set log. on_url c cu x \<longrightarrow> call_result x = Ret None)
     \<and> (case find (admitted c cu) log of
          None \<Rightarrow>
            queue_Adds (calls_on c cu log) = [] \<and> db_Puts (calls_on c cu log) = []
            \<and> kv s' (''url/'' @ cu) = None
        | Some (link, depth, r, cs) \<Rightarrow>
            map Some (queue_Adds (calls_on c cu log)) = [queue_entry c link depth]
            \<and> db_Puts (calls_on c cu log) = [(''url/'' @ cu, b0)]
            \<and> kv s' (''url/'' @ cu) = Some b0)"
proof (induction reqs arbitrary: s log)
  case Nil
  then show ?case by (simp add: calls_on_def)
next
  case (Cons req rest)
  obtain link depth where req: "req = (link, depth)" by (cases req)
  consider (other) "canonical c (link_URL link) \<noteq> Some cu"
    | (rejected) "canonical c (link_URL link) = Some cu" "\<not> in_scope c link depth"
    | (admitted) "canonical c (link_URL link) = Some cu" "in_scope c link depth"
    by blast
  then show ?case
  proof cases
    case other
    have key: "kv (snd (Enqueue c s link depth)) (''url/'' @ cu) = None"
      using Enqueue_other_key [OF other] Cons.prems(2) by simp
    from Cons.prems(1) [unfolded req] show ?thesis
    proof (cases rule: Enqueue_log_Cons)
      case (1 a)
      then show ?thesis using other key by (simp add: calls_on_Cons calls_on_def)
    next
      case (2 r s1 log1)
      have s1: "kv s1 (''url/'' @ cu) = None" using key 2(1) by simp
      have same: "calls_on c cu log = calls_on c cu log1"
        "find (admitted c cu) log = find (admitted c cu) log1"
        "(\<forall>x \<in> set log. on_url c cu x \<longrightarrow> call_result x = Ret None)
           = (\<forall>x \<in> set log1. on_url c cu x \<longrightarrow> call_result x = Ret None)"
        using 2(3) other by (simp_all add: calls_on_Cons)
      show ?thesis
        unfolding same using Cons.IH [OF 2(2) s1] .
    qed
  next
    case rejected
    have step: "Enqueue c s link depth = (Ret None, s)"
      using Enqueue_step_rejected [OF rejected] .
    from Cons.prems(1) [unfolded req] show ?thesis
    proof (cases rule: Enqueue_log_Cons)
      case (1 a)
      then show ?thesis using step by simp
    next
      case (2 r s1 log1)
      have s1: "s1 = s" "r = None" using step 2(1) by simp_all
      have same: "calls_on c cu log = calls_on c cu log1"
        "find (admitted c cu) log = find (admitted c cu) log1"
        "(\<forall>x \<in> set log. on_url c cu x \<longrightarrow> call_result x = Ret None)
           = (\<forall>x \<in> set log1. on_url c cu x \<longrightarrow> call_result x = Ret None)"
        using 2(3) rejected s1 by (simp_all add: calls_on_Cons)
      show ?thesis
        unfolding same using Cons.IH [OF 2(2) [unfolded s1] Cons.prems(2)] .
    qed
  next
    case admitted
    have step: "fst (Enqueue c s link depth) = Ret None
       \<and> kv (snd (Enqueue c s link depth)) (''url/'' @ cu) = Some b0
       \<and> map Some (queue_Adds (drop (length (calls s)) (calls (snd (Enqueue c s link depth)))))
           = [queue_entry c link depth]
       \<and> db_Puts (drop (length (calls s)) (calls (snd (Enqueue c s link depth))))
           = [(''url/'' @ cu, b0)]"
      using Enqueue_step_admitted [OF nofault enc marshal Cons.prems(2) admitted] .
    from Cons.prems(1) [unfolded req] show ?thesis
    proof (cases rule: Enqueue_log_Cons)
      case (1 a)
      then show ?thesis using step by simp
    next
      case (2 r s1 log1)
      have s1: "kv s1 (''url/'' @ cu) = Some b0" "r = None"
        using step 2(1) by simp_all
      have rest: "(\<forall>x \<in> set log1. on_url c cu x \<longrightarrow> call_result x = Ret None)
         \<and> queue_Adds (calls_on c cu log1) = [] \<and> db_Puts (calls_on c cu log1) = []
         \<and> kv s' (''url/'' @ cu) = Some b0"
        using Enqueue_log_known [OF nofault dec 2(2) s1(1)] .
      have first: "find (admitted c cu) log
                     = Some (link, depth, Ret r, drop (length (calls s)) (calls s1))"
        using 2(3) admitted by simp
      have con: "calls_on c cu log = drop (length (calls s)) (calls s1) @ calls_on c cu log1"
        using 2(3) admitted by (simp add: calls_on_Cons)
      have res: "\<forall>x \<in> set log. on_url c cu x \<longrightarrow> call_result x = Ret None"
        using rest 2(3) s1 by simp
      have eff: "map Some (queue_Adds (calls_on c cu log)) = [queue_entry c link depth]"
        "db_Puts (calls_on c cu log) = [(''url/'' @ cu, b0)]"
        using rest step 2(1) by (simp_all add: con queue_Adds_append db_Puts_append)
      show ?thesis
        using res eff rest by (simp add: first)
    qed
  qed
qed

text \<open>
  C1, as the code has it. Take any sequence of \<open>Enqueue\<close> calls, on any URLs, in a crawler
  where no operation of the database or the queue fails, a zero \<open>URLInfo\<close> encodes to bytes
  that decode, and queue items for \<open>cu\<close> marshal; let \<open>cu\<close> be a canonical form with no
  record at the start. The log holds the calls in order (all of them unless a call
  stopped the process), the frontier grows by exactly the entries added, and every call
  on \<open>cu\<close> returns nil. If at least one call on \<open>cu\<close> passes the scope check, the calls on
  \<open>cu\<close> together make exactly one \<open>Add\<close>, the entry (host, \<open>queueItem\<close> of \<open>cu\<close> at the depth)
  of the first such call, and exactly one \<open>Put\<close>, of the empty record under \<open>url/cu\<close>, which
  is in the database at the end. If none does, they make no \<open>Add\<close> and no \<open>Put\<close> and there
  is no record \<open>url/cu\<close>. Whenever a record \<open>url/cu\<close> that decodes is in the database, a
  call on \<open>cu\<close> returns nil, leaves database and frontier as they are and makes at most
  the \<open>Get\<close> of the lookup.
\<close>

theorem Enqueue_dedupe:
  assumes nofault: "\<forall>h x. io_fault c h x = None"
    and enc: "gob_Encode c URLInfo_zero = Inr b0"
    and dec: "fst (gob_Decode c b0 URLInfo_zero) = None"
    and marshal: "\<forall>d. \<exists>data. json_Marshal c \<lparr>item_URL = cu, item_Depth = d\<rparr> = Inr data"
    and unknown: "kv s (''url/'' @ cu) = None"
  shows "(\<exists>log s'. Enqueue_log c s reqs = (log, s')
            \<and> map call_request log = take (length log) reqs
            \<and> ((\<forall>x \<in> set log. \<forall>a. call_result x \<noteq> Abort a) \<longrightarrow> length log = length reqs)
            \<and> calls s' = calls s @ concat (map call_calls log)
            \<and> frontier s' = frontier s @ queue_Adds (concat (map call_calls log))
            \<and> (\<forall>x \<in> set log. on_url c cu x \<longrightarrow> call_result x = Ret None)
            \<and> (case find (admitted c cu) log of
                  None \<Rightarrow>
                    queue_Adds (calls_on c cu log) = [] \<and> db_Puts (calls_on c cu log) = []
                    \<and> kv s' (''url/'' @ cu) = None
                | Some (link, depth, r, cs) \<Rightarrow>
                    map Some (queue_Adds (calls_on c cu log)) = [queue_entry c link depth]
                    \<and> db_Puts (calls_on c cu log) = [(''url/'' @ cu, b0)]
                    \<and> kv s' (''url/'' @ cu) = Some b0))
       \<and> (\<forall>(s0::cstate) b link depth.
             canonical c (link_URL link) = Some cu \<and> kv s0 (''url/'' @ cu) = Some b
             \<and> fst (gob_Decode c b URLInfo_zero) = None
           \<longrightarrow> (\<exists>s1. Enqueue c s0 link depth = (Ret None, s1)
                  \<and> kv s1 = kv s0 \<and> frontier s1 = frontier s0
                  \<and> (calls s1 = calls s0 \<or> calls s1 = calls s0 @ [DBGet (''url/'' @ cu)])))"
proof (intro conjI allI impI)
  obtain log s' where run: "Enqueue_log c s reqs = (log, s')"
    by (cases "Enqueue_log c s reqs")
  show "\<exists>log s'. Enqueue_log c s reqs = (log, s')
            \<and> map call_request log = take (length log) reqs
            \<and> ((\<forall>x \<in> set log. \<forall>a. call_result x \<noteq> Abort a) \<longrightarrow> length log = length reqs)
            \<and> calls s' = calls s @ concat (map call_calls log)
            \<and> frontier s' = frontier s @ queue_Adds (concat (map call_calls log))
            \<and> (\<forall>x \<in> set log. on_url c cu x \<longrightarrow> call_result x = Ret None)
            \<and> (case find (admitted c cu) log of
                  None \<Rightarrow>
                    queue_Adds (calls_on c cu log) = [] \<and> db_Puts (calls_on c cu log) = []
                    \<and> kv s' (''url/'' @ cu) = None
                | Some (link, depth, r, cs) \<Rightarrow>
                    map Some (queue_Adds (calls_on c cu log)) = [queue_entry c link depth]
                    \<and> db_Puts (calls_on c cu log) = [(''url/'' @ cu, b0)]
                    \<and> kv s' (''url/'' @ cu) = Some b0)"
    using run Enqueue_log_structure [OF run] Enqueue_log_frontier [OF nofault run]
      Enqueue_log_unknown [OF nofault enc dec marshal run unknown]
    by blast
next
  fix s0 :: cstate and b :: string and link :: "'a Outlink" and depth :: go_int
  assume a: "canonical c (link_URL link) = Some cu \<and> kv s0 (''url/'' @ cu) = Some b
             \<and> fst (gob_Decode c b URLInfo_zero) = None"
  then obtain u where u: "normalizeURL c (link_URL link) = Ret u" "url_String c u = cu"
    by (auto dest: canonicalD)
  have "Enqueue c s0 link depth =
          (Ret None,
           if scope_Check c (link\<lparr>link_URL := u\<rparr>) depth
           then s0\<lparr>calls := calls s0 @ [DBGet (''url/'' @ url_String c u)]\<rparr> else s0)"
    using Enqueue_known [of c link u s0 b depth] u a nofault by simp
  then show "\<exists>s1. Enqueue c s0 link depth = (Ret None, s1)
                  \<and> kv s1 = kv s0 \<and> frontier s1 = frontier s0
                  \<and> (calls s1 = calls s0 \<or> calls s1 = calls s0 @ [DBGet (''url/'' @ cu)])"
    using u(2) by simp
qed

text \<open>
  On the concrete crawler: five calls, three on \<open>http://a/x\<close> (the first beyond the depth
  scope, the second with a fragment, at depth 3) and two on \<open>http://b/y\<close>. The calls on
  \<open>http://a/x\<close> make one \<open>Add\<close>, of the item at depth 3, and one \<open>Put\<close>.
\<close>

theorem Enqueue_dedupe_witness:
  "map call_result (fst (Enqueue_log demo_depth init mixed_calls))
     = [Ret None, Ret None, Ret None, Ret None, Ret None]
   \<and> queue_Adds (calls_on demo_depth ''http://a/x'' (fst (Enqueue_log demo_depth init mixed_calls)))
     = [(''a'', ''+++{http://a/x'')]
   \<and> db_Puts (calls_on demo_depth ''http://a/x'' (fst (Enqueue_log demo_depth init mixed_calls)))
     = [(''url/http://a/x'', ''G'')]
   \<and> frontier (snd (Enqueue_log demo_depth init mixed_calls))
     = [(''b'', ''+{http://b/y''), (''a'', ''+++{http://a/x'')]
   \<and> kv (snd (Enqueue_log demo_depth init mixed_calls)) ''url/http://a/x'' = Some ''G''"
proof -
  have nofault: "\<forall>h x. io_fault demo_depth h x = None"
    by (simp add: demo_depth_def demo_def)
  have enc: "gob_Encode demo_depth URLInfo_zero = Inr ''G''"
    by (simp add: demo_depth_def demo_def URLInfo_zero_def)
  have dec: "fst (gob_Decode demo_depth ''G'' URLInfo_zero) = None"
    by (simp add: demo_depth_def demo_def demo_Decode_def)
  have marshal: "\<forall>d. \<exists>data. json_Marshal demo_depth \<lparr>item_URL = ''http://a/x'', item_Depth = d\<rparr> = Inr data"
    by (simp add: demo_depth_def demo_Marshal_depth_def)
  have unknown: "kv init (''url/'' @ ''http://a/x'') = None"
    by (simp add: init_def)
  have three: "replicate (unat (3::go_int)) (CHR ''+'') = ''+++''"
  proof -
    have "unat (3::go_int) = 3" by simp
    moreover have "replicate 3 (CHR ''+'') = ''+++''" by (simp add: numeral_3_eq_3)
    ultimately show ?thesis by simp
  qed
  have payload: "\<And>u. demo_Marshal_depth \<lparr>item_URL = u, item_Depth = 3\<rparr> = Inr (''+++{'' @ u)"
    "\<And>u. demo_Marshal_depth \<lparr>item_URL = u, item_Depth = 1\<rparr> = Inr (''+{'' @ u)"
    using three by (simp_all add: demo_Marshal_depth_def)
  obtain log s' where run: "Enqueue_log demo_depth init mixed_calls = (log, s')"
    by (cases "Enqueue_log demo_depth init mixed_calls")
  have results: "map call_result log = [Ret None, Ret None, Ret None, Ret None, Ret None]"
    "find (admitted demo_depth ''http://a/x'') log
       = Some (link_x_top, 3, Ret None,
               [DBGet ''url/http://a/x'', QueueAdd ''a'' ''+++{http://a/x'',
                DBPut ''url/http://a/x'' ''G''])"
    "frontier init @ queue_Adds (concat (map call_calls log))
       = [(''b'', ''+{http://b/y''), (''a'', ''+++{http://a/x'')]"
    "queue_entry demo_depth link_x_top 3 = Some (''a'', ''+++{http://a/x'')"
    using run
    by (auto simp: mixed_calls_def demo_depth_def payload demo_def link_x_def
        link_x_top_def link_y_def init_def normalizeURL_def Enqueue_def GetObj_def
        leveldb_Get_def addNewURLToQueue_def queue_Add_def PutObj_def leveldb_Put_def
        demo_Host_def demo_Decode_def URLInfo_zero_def Let_def canonical_def in_scope_def
        queue_entry_def)
  from Enqueue_dedupe [OF nofault enc dec marshal unknown, of mixed_calls]
  have "frontier s' = frontier init @ queue_Adds (concat (map call_calls log))"
    "case find (admitted demo_depth ''http://a/x'') log of
       None \<Rightarrow>
         queue_Adds (calls_on demo_depth ''http://a/x'' log) = []
         \<and> db_Puts (calls_on demo_depth ''http://a/x'' log) = []
         \<and> kv s' (''url/'' @ ''http://a/x'') = None
     | Some (link, depth, r, cs) \<Rightarrow>
         map Some (queue_Adds (calls_on demo_depth ''http://a/x'' log))
           = [queue_entry demo_depth link depth]
         \<and> db_Puts (calls_on demo_depth ''http://a/x'' log) = [(''url/'' @ ''http://a/x'', ''G'')]
         \<and> kv s' (''url/'' @ ''http://a/x'') = Some ''G''"
    using run by auto
  then show ?thesis
    using run results by (auto simp: map_eq_Cons_conv)
qed

text \<open>
  C1 as stated fails. One call on \<open>http://a/x\<close> at depth 11, outside the scope, makes no
  \<open>Add\<close> and creates no record. And with a database that refuses the write of the record,
  two calls on \<open>http://a/x\<close> in scope make two \<open>Add\<close>s of the same item and leave no record.
\<close>

theorem Enqueue_dedupe_counterexample:
  "canonical demo (link_URL link_x) = Some ''http://a/x''
   \<and> queue_Adds (calls_on demo ''http://a/x'' (fst (Enqueue_log demo init [(link_x, 11)]))) = []
   \<and> kv (snd (Enqueue_log demo init [(link_x, 11)])) ''url/http://a/x'' = None
   \<and> queue_Adds (calls_on (demo\<lparr>io_fault := fail_Put\<rparr>) ''http://a/x''
        (fst (Enqueue_log (demo\<lparr>io_fault := fail_Put\<rparr>) init [(link_x, 1), (link_x, 2)])))
     = [(''a'', ''{http://a/x''), (''a'', ''{http://a/x'')]
   \<and> kv (snd (Enqueue_log (demo\<lparr>io_fault := fail_Put\<rparr>) init [(link_x, 1), (link_x, 2)]))
       ''url/http://a/x'' = None"
  by (simp add: canonical_def calls_on_def normalizeURL_def Enqueue_def demo_def link_x_def
      init_def GetObj_def leveldb_Get_def addNewURLToQueue_def queue_Add_def PutObj_def
      leveldb_Put_def demo_Host_def URLInfo_zero_def Let_def)

text \<open>
  \<open>normalizeURL\<close> composes \<open>purell.NormalizeURL\<close> and \<open>url.Parse\<close> and adds nothing of its
  own. Normalizing its result again gives the same URL exactly when purell maps that
  result to a string that parses back to it: idempotence is a property of the two
  libraries.
\<close>

lemma normalizeURL_again:
  assumes "normalizeURL c u = Ret u2"
  shows "(normalizeURL c u2 = Ret u2) = (url_Parse c (purell_NormalizeURL c u2) = Inr u2)"
  by (auto simp: normalizeURL_def Let_def split: sum.splits)

text \<open>
  C3. When the scope check on the canonicalized outlink is false, \<open>Enqueue\<close> returns nil
  and the state is the one it was called in: no call to the queue or the database, no
  entry added to the frontier, no record written.
\<close>

theorem Enqueue_out_of_scope:
  assumes "normalizeURL c (link_URL link) = Ret u"
    and "\<not> scope_Check c (link\<lparr>link_URL := u\<rparr>) depth"
  shows "Enqueue c s link depth = (Ret None, s)"
  using assms by (simp add: Enqueue_def)

theorem Enqueue_out_of_scope_witness:
  "normalizeURL demo (link_URL link_x_top) = Ret ''http://a/x''
   \<and> \<not> scope_Check demo (link_x_top\<lparr>link_URL := ''http://a/x''\<rparr>) 11
   \<and> Enqueue demo init link_x_top 11 = (Ret None, init)"
proof -
  have n: "normalizeURL demo (link_URL link_x_top) = Ret ''http://a/x''"
    by (simp add: normalizeURL_def demo_def link_x_top_def)
  have sc: "\<not> scope_Check demo (link_x_top\<lparr>link_URL := ''http://a/x''\<rparr>) 11"
    by (simp add: demo_def)
  show ?thesis
    using n sc Enqueue_out_of_scope [OF n sc, of init] by simp
qed

text \<open>
  C9. For a URL in scope with no record, when the \<open>Add\<close> of the serialized item fails
  with \<open>e\<close>: \<open>Enqueue\<close> returns \<open>e\<close>, having made the lookup and the \<open>Add\<close> and no \<open>Put\<close>, so
  database and frontier are unchanged. A later call in scope on the same canonical form
  starts again with the lookup and an \<open>Add\<close>.
\<close>

theorem Enqueue_Add_failure:
  assumes norm: "normalizeURL c (link_URL link) = Ret u"
    and scope: "scope_Check c (link\<lparr>link_URL := u\<rparr>) depth"
    and unknown: "kv s (''url/'' @ url_String c u) = None"
    and marshal: "json_Marshal c \<lparr>item_URL = url_String c u, item_Depth = depth\<rparr> = Inr data"
    and addfail: "io_fault c (calls s @ [DBGet (''url/'' @ url_String c u)])
                    (QueueAdd (url_Host c u) data) = Some e"
  shows "Enqueue c s link depth =
           (Ret (Some e),
            s\<lparr>calls := calls s @ [DBGet (''url/'' @ url_String c u), QueueAdd (url_Host c u) data]\<rparr>)
       \<and> (\<forall>link2 depth2 u2 data2.
             normalizeURL c (link_URL link2) = Ret u2 \<and> url_String c u2 = url_String c u
             \<and> scope_Check c (link2\<lparr>link_URL := u2\<rparr>) depth2
             \<and> json_Marshal c \<lparr>item_URL = url_String c u2, item_Depth = depth2\<rparr> = Inr data2
           \<longrightarrow> (\<exists>r s2 rest.
                  Enqueue c
                    (s\<lparr>calls := calls s @ [DBGet (''url/'' @ url_String c u),
                                           QueueAdd (url_Host c u) data]\<rparr>) link2 depth2
                    = (Ret r, s2)
                \<and> calls s2 = calls s @ [DBGet (''url/'' @ url_String c u), QueueAdd (url_Host c u) data]
                              @ [DBGet (''url/'' @ url_String c u), QueueAdd (url_Host c u2) data2]
                              @ rest))"
proof (intro conjI allI impI)
  show "Enqueue c s link depth =
           (Ret (Some e),
            s\<lparr>calls := calls s @ [DBGet (''url/'' @ url_String c u), QueueAdd (url_Host c u) data]\<rparr>)"
    using assms
    by (auto simp: Enqueue_def GetObj_def leveldb_Get_def Let_def addNewURLToQueue_def
        queue_Add_def split: prod.splits option.splits)
next
  fix link2 depth2 u2 data2
  assume a: "normalizeURL c (link_URL link2) = Ret u2 \<and> url_String c u2 = url_String c u
             \<and> scope_Check c (link2\<lparr>link_URL := u2\<rparr>) depth2
             \<and> json_Marshal c \<lparr>item_URL = url_String c u2, item_Depth = depth2\<rparr> = Inr data2"
  let ?s' = "s\<lparr>calls := calls s @ [DBGet (''url/'' @ url_String c u), QueueAdd (url_Host c u) data]\<rparr>"
  show "\<exists>r s2 rest. Enqueue c ?s' link2 depth2 = (Ret r, s2)
                \<and> calls s2 = calls s @ [DBGet (''url/'' @ url_String c u), QueueAdd (url_Host c u) data]
                              @ [DBGet (''url/'' @ url_String c u), QueueAdd (url_Host c u2) data2]
                              @ rest"
    using a unknown
    by (auto simp: Enqueue_def GetObj_def leveldb_Get_def Let_def addNewURLToQueue_def
        queue_Add_def PutObj_def leveldb_Put_def split: prod.splits option.splits sum.splits)
qed

text \<open>On the concrete crawler with a queue that refuses entries.\<close>

theorem Enqueue_Add_failure_witness:
  "Enqueue (demo\<lparr>io_fault := fail_Add\<rparr>) init link_x 1 =
     (Ret (Some (ErrOther ''context deadline exceeded'')),
      init\<lparr>calls := [DBGet ''url/http://a/x'', QueueAdd ''a'' ''{http://a/x'']\<rparr>)
   \<and> kv (snd (Enqueue (demo\<lparr>io_fault := fail_Add\<rparr>) init link_x 1)) ''url/http://a/x'' = None"
proof -
  let ?c = "demo\<lparr>io_fault := fail_Add\<rparr>"
  have norm: "normalizeURL ?c (link_URL link_x) = Ret ''http://a/x''"
    by (simp add: normalizeURL_def demo_def link_x_def)
  have scope: "scope_Check ?c (link_x\<lparr>link_URL := ''http://a/x''\<rparr>) 1"
    by (simp add: demo_def)
  have unknown: "kv init (''url/'' @ url_String ?c ''http://a/x'') = None"
    by (simp add: init_def)
  have marshal: "json_Marshal ?c \<lparr>item_URL = url_String ?c ''http://a/x'', item_Depth = 1\<rparr>
                   = Inr ''{http://a/x''"
    by (simp add: demo_def)
  have addfail: "io_fault ?c (calls init @ [DBGet (''url/'' @ url_String ?c ''http://a/x'')])
                   (QueueAdd (url_Host ?c ''http://a/x'') ''{http://a/x'')
                   = Some (ErrOther ''context deadline exceeded'')"
    by simp
  have host: "url_Host ?c ''http://a/x'' = ''a''" "url_String ?c ''http://a/x'' = ''http://a/x''"
    by (simp_all add: demo_def demo_Host_def)
  show ?thesis
    using Enqueue_Add_failure [OF norm scope unknown marshal addfail] host
    by (simp add: init_def)
qed

section \<open>The object store\<close>










section \<open>Workers: \<open>handleJob\<close> and \<open>handleURL\<close>\<close>

lemma PutObj_kv:
  assumes "PutObj fault encode s key obj = (r, s')"
  shows "(r = None \<longrightarrow> (\<exists>b. encode obj = Inr b \<and> kv s' = (kv s)(key \<mapsto> b)))
       \<and> (r \<noteq> None \<longrightarrow> kv s' = kv s) \<and> frontier s' = frontier s"
  using assms
  by (auto simp: PutObj_def leveldb_Put_def split: sum.splits option.splits)

text \<open>
  C2, as the code has it. Let the fetcher return a response or an error, \<open>info\<close> be the
  record read for the URL with \<open>CrawledAt\<close>, \<open>URL\<close> and (after a fetch without error) the
  status code set, and let the handler return \<open>hr\<close> in state \<open>s3\<close>. If \<open>hr\<close> is nil,
  \<open>handleURL\<close> calls \<open>PutObj\<close> with \<open>info\<close> under \<open>url/URL\<close> and returns what \<open>PutObj\<close>
  returns: nil with the record written, or the error of the write with the database
  unchanged. If \<open>hr\<close> is \<open>ErrRetryRequest\<close>, it returns \<open>ErrRetryRequest\<close> in the handler's
  state, with no write. On any other error the process is aborted by \<open>log.Fatalf\<close>.
\<close>

theorem handleURL_classification:
  assumes get: "GetObj (io_fault c) (gob_Decode c) s (''url/'' @ item_URL item) URLInfo_zero
                  = ((e0, info0), s1)"
    and fetch: "fetcher (item_URL item) = (httpResp, httpErr)"
    and present: "httpErr = None \<longrightarrow> httpResp \<noteq> None"
    and handle: "handler c (s1\<lparr>outlog := outlog s1 @ [Printed (item_URL item)]\<rparr>)
                   (item_URL item) (item_Depth item) httpResp httpErr = (hr, s3)"
    and info: "info = (case (httpResp, httpErr) of
                 (Some r, None) \<Rightarrow>
                   info0\<lparr>info_CrawledAt := now, info_URL := item_URL item,
                         info_StatusCode := resp_StatusCode r\<rparr>
               | _ \<Rightarrow> info0\<lparr>info_CrawledAt := now, info_URL := item_URL item\<rparr>)"
  shows "(hr = Ret None \<longrightarrow>
            (\<exists>r s4. handleURL c fetcher handler now s item = (Ret r, s4)
               \<and> PutObj (io_fault c) (gob_Encode c) s3 (''url/'' @ item_URL item) info = (r, s4)
               \<and> (r = None \<longrightarrow>
                    (\<exists>b. gob_Encode c info = Inr b
                        \<and> kv s4 = (kv s3)(''url/'' @ item_URL item \<mapsto> b)))
               \<and> (r \<noteq> None \<longrightarrow> kv s4 = kv s3)))
       \<and> (hr = Ret (Some ErrRetryRequest) \<longrightarrow>
            handleURL c fetcher handler now s item = (Ret (Some ErrRetryRequest), s3))
       \<and> (\<forall>e. hr = Ret (Some e) \<and> e \<noteq> ErrRetryRequest \<longrightarrow>
            handleURL c fetcher handler now s item = (Abort (LogFatal (item_URL item) e), s3))"
proof -
  obtain r s4 where put:
    "PutObj (io_fault c) (gob_Encode c) s3 (''url/'' @ item_URL item) info = (r, s4)"
    by (cases "PutObj (io_fault c) (gob_Encode c) s3 (''url/'' @ item_URL item) info")
  have run: "handleURL c fetcher handler now s item =
               handleURL_handle c handler (s1\<lparr>outlog := outlog s1 @ [Printed (item_URL item)]\<rparr>)
                 item (''url/'' @ item_URL item) info httpResp httpErr"
    using get fetch present info
    by (cases httpErr; cases httpResp) (simp_all add: handleURL_def Let_def)
  have nil: "hr = Ret None \<longrightarrow> handleURL c fetcher handler now s item = (Ret r, s4)"
    using run handle put by (simp add: handleURL_handle_def)
  have retry: "hr = Ret (Some ErrRetryRequest) \<longrightarrow>
                 handleURL c fetcher handler now s item = (Ret (Some ErrRetryRequest), s3)"
    using run handle by (simp add: handleURL_handle_def)
  have fatal: "\<forall>e. hr = Ret (Some e) \<and> e \<noteq> ErrRetryRequest \<longrightarrow>
                 handleURL c fetcher handler now s item = (Abort (LogFatal (item_URL item) e), s3)"
    using run handle by (simp add: handleURL_handle_def)
  show ?thesis
    using nil retry fatal put PutObj_kv [OF put] by blast
qed

text \<open>On the concrete crawler: \<open>http://a/x\<close> is fetched with status 200 and its record written.\<close>

theorem handleURL_classification_witness:
  "handleURL demo demo_fetch visit 5 init item_x =
     (Ret None,
      \<lparr>kv = [''url/http://a/x'' \<mapsto> ''G''], frontier = [],
        calls = [DBGet ''url/http://a/x'', DBPut ''url/http://a/x'' ''G''],
        outlog = [Printed ''http://a/x'', Printed ''http://a/x'']\<rparr>)"
proof -
  let ?s1 = "init\<lparr>calls := [DBGet ''url/http://a/x'']\<rparr>"
  let ?s3 = "init\<lparr>calls := [DBGet ''url/http://a/x''],
                  outlog := [Printed ''http://a/x'', Printed ''http://a/x'']\<rparr>"
  let ?info = "URLInfo_zero\<lparr>info_CrawledAt := 5, info_URL := ''http://a/x'', info_StatusCode := 200\<rparr>"
  have get: "GetObj (io_fault demo) (gob_Decode demo) init (''url/'' @ item_URL item_x) URLInfo_zero
               = ((Some ErrNotFound, URLInfo_zero), ?s1)"
    by (simp add: GetObj_def leveldb_Get_def demo_def init_def item_x_def)
  have fetch: "demo_fetch (item_URL item_x) = (Some resp_200, None)"
    by (simp add: demo_fetch_def item_x_def)
  have present: "(None :: error option) = None \<longrightarrow> Some resp_200 \<noteq> None"
    by simp
  have handle: "visit demo (?s1\<lparr>outlog := outlog ?s1 @ [Printed (item_URL item_x)]\<rparr>)
                  (item_URL item_x) (item_Depth item_x) (Some resp_200) None = (Ret None, ?s3)"
    by (simp add: visit_def init_def item_x_def)
  have info: "?info = (case (Some resp_200, None :: error option) of
                 (Some r, None) \<Rightarrow>
                   URLInfo_zero\<lparr>info_CrawledAt := 5, info_URL := item_URL item_x,
                         info_StatusCode := resp_StatusCode r\<rparr>
               | _ \<Rightarrow> URLInfo_zero\<lparr>info_CrawledAt := 5, info_URL := item_URL item_x\<rparr>)"
    by (simp add: item_x_def resp_200_def)
  have put: "PutObj (io_fault demo) (gob_Encode demo) ?s3 (''url/'' @ item_URL item_x) ?info
               = (None, ?s3\<lparr>kv := [''url/http://a/x'' \<mapsto> ''G''],
                     calls := [DBGet ''url/http://a/x'', DBPut ''url/http://a/x'' ''G'']\<rparr>)"
    by (simp add: PutObj_def leveldb_Put_def demo_def init_def item_x_def URLInfo_zero_def)
  show ?thesis
    using handleURL_classification [where c = demo and s = init and item = item_x
        and fetcher = demo_fetch and handler = visit and hr = "Ret None" and ?s3.0 = ?s3
        and info = ?info and now = 5 and httpResp = "Some resp_200" and httpErr = None
        and ?s1.0 = ?s1 and ?e0.0 = "Some ErrNotFound" and ?info0.0 = URLInfo_zero,
        OF get fetch present handle info] put
    by (auto simp: init_def)
qed

text \<open>
  C2 as stated fails when the write of the record fails: the handler returns nil, no
  record is written and \<open>handleURL\<close> returns the error of the write to the queue.
\<close>

theorem handleURL_classification_counterexample:
  "visit (demo\<lparr>io_fault := fail_Put\<rparr>)
     (init\<lparr>calls := [DBGet ''url/http://a/x''], outlog := [Printed ''http://a/x'']\<rparr>)
     ''http://a/x'' 1 (Some resp_200) None
     = (Ret None,
        init\<lparr>calls := [DBGet ''url/http://a/x''],
             outlog := [Printed ''http://a/x'', Printed ''http://a/x'']\<rparr>)
   \<and> fst (handleURL (demo\<lparr>io_fault := fail_Put\<rparr>) demo_fetch visit 5 init item_x)
       = Ret (Some (ErrOther ''leveldb: closed''))
   \<and> kv (snd (handleURL (demo\<lparr>io_fault := fail_Put\<rparr>) demo_fetch visit 5 init item_x))
       ''url/http://a/x'' = None"
  by (simp add: handleURL_def handleURL_handle_def GetObj_def leveldb_Get_def PutObj_def
      leveldb_Put_def demo_def demo_fetch_def visit_def init_def item_x_def Let_def)

text \<open>
  C7, as the code has it. When the payload of a dequeued entry does not decode,
  \<open>handleJob\<close> logs the error and returns nil to the queue, whatever the fetcher and the
  handler are: nothing is fetched, and no call is made to the database, which stays as it
  was.
\<close>

theorem handleJob_malformed_payload:
  assumes "json_Unmarshal c data = Inl err"
  shows "handleJob c fetcher handler now s data
           = (Ret None, s\<lparr>outlog := outlog s @ [LogDecodeError err]\<rparr>)"
  using assms by (simp add: handleJob_def)

theorem handleJob_malformed_payload_witness:
  "json_Unmarshal demo ''http://a/x'' = Inl (ErrOther ''invalid character'')
   \<and> handleJob demo demo_fetch visit 5 init ''http://a/x''
       = (Ret None, init\<lparr>outlog := [LogDecodeError (ErrOther ''invalid character'')]\<rparr>)"
proof -
  have bad: "json_Unmarshal demo ''http://a/x'' = Inl (ErrOther ''invalid character'')"
    by (simp add: demo_def demo_Unmarshal_def)
  show ?thesis
    using bad handleJob_malformed_payload [OF bad, of demo_fetch visit 5 init]
    by (simp add: init_def)
qed

text \<open>
  C7 as stated fails: after \<open>handleJob\<close> on a payload that does not decode, the database
  holds no record at all.
\<close>

theorem handleJob_malformed_payload_counterexample:
  "json_Unmarshal demo ''http://a/x'' = Inl (ErrOther ''invalid character'')
   \<and> fst (handleJob demo demo_fetch visit 5 init ''http://a/x'') = Ret None
   \<and> dom (kv (snd (handleJob demo demo_fetch visit 5 init ''http://a/x''))) = {}
   \<and> calls (snd (handleJob demo demo_fetch visit 5 init ''http://a/x'')) = []"
  by (simp add: handleJob_def demo_def demo_Unmarshal_def init_def)

subsection \<open>The \<open>Error\<close> field\<close>

lemma GetObj_Error:
  assumes inv: "records_without_Error c s"
    and get: "GetObj (io_fault c) (gob_Decode c) s key URLInfo_zero = ((e, info), s1)"
  shows "info_Error info = [] \<and> records_without_Error c s1"
proof -
  have s1: "s1 = s\<lparr>calls := calls s @ [DBGet key]\<rparr>"
    using get
    by (auto simp: GetObj_def leveldb_Get_def Let_def split: option.splits prod.splits)
  have stored: "\<And>b. kv s key = Some b \<Longrightarrow> info_Error (snd (gob_Decode c b URLInfo_zero)) = []"
    using inv by (simp add: records_without_Error_def)
  have "info = URLInfo_zero \<or> (\<exists>b. kv s key = Some b \<and> info = snd (gob_Decode c b URLInfo_zero))"
    using get
    by (auto simp: GetObj_def leveldb_Get_def Let_def split: option.splits prod.splits)
  then have "info_Error info = []"
    using stored by (auto simp: URLInfo_zero_def)
  moreover have "records_without_Error c s1"
    using inv by (simp add: s1 records_without_Error_def)
  ultimately show ?thesis by simp
qed

lemma PutObj_Error:
  assumes "\<forall>v b. gob_Encode c v = Inr b \<longrightarrow>
             info_Error (snd (gob_Decode c b URLInfo_zero)) = info_Error v"
    and "records_without_Error c s"
    and "info_Error info = []"
    and "PutObj (io_fault c) (gob_Encode c) s key info = (r, s1)"
  shows "records_without_Error c s1"
  using assms
  by (auto simp: PutObj_def leveldb_Put_def records_without_Error_def
      split: sum.splits option.splits if_splits)

lemma addNewURLToQueue_Error:
  assumes "records_without_Error c s"
    and "addNewURLToQueue c s uri depth = (r, s1)"
  shows "records_without_Error c s1"
  using assms
  by (auto simp: addNewURLToQueue_def queue_Add_def records_without_Error_def
      split: sum.splits option.splits)

lemma Enqueue_Error:
  assumes codec: "\<forall>v b. gob_Encode c v = Inr b \<longrightarrow>
             info_Error (snd (gob_Decode c b URLInfo_zero)) = info_Error v"
    and inv: "records_without_Error c s"
  shows "records_without_Error c (snd (Enqueue c s link depth))"
proof (cases "normalizeURL c (link_URL link)")
  case (Abort a)
  then show ?thesis using inv by (simp add: Enqueue_def)
next
  case (Ret u)
  show ?thesis
  proof (cases "scope_Check c (link\<lparr>link_URL := u\<rparr>) depth")
    case False
    then show ?thesis using Ret inv by (simp add: Enqueue_def)
  next
    case True
    obtain e info s1 where
      get: "GetObj (io_fault c) (gob_Decode c) s (''url/'' @ url_String c u) URLInfo_zero
              = ((e, info), s1)"
      by (metis surj_pair)
    have s1: "info_Error info = []" "records_without_Error c s1"
      using GetObj_Error [OF inv get] by simp_all
    obtain r2 s2 where add: "addNewURLToQueue c s1 u depth = (r2, s2)"
      by (cases "addNewURLToQueue c s1 u depth")
    have s2: "records_without_Error c s2"
      using addNewURLToQueue_Error [OF s1(2) add] .
    obtain r3 s3 where
      put: "PutObj (io_fault c) (gob_Encode c) s2 (''url/'' @ url_String c u) info = (r3, s3)"
      by (cases "PutObj (io_fault c) (gob_Encode c) s2 (''url/'' @ url_String c u) info")
    have s3: "records_without_Error c s3"
      using PutObj_Error [OF codec s2 s1(1) put] .
    show ?thesis
      using Ret True get add put s1 s2 s3
      by (cases e; cases r2) (simp_all add: Enqueue_def Let_def)
  qed
qed

lemma handleURL_handle_Error:
  assumes codec: "\<forall>v b. gob_Encode c v = Inr b \<longrightarrow>
             info_Error (snd (gob_Decode c b URLInfo_zero)) = info_Error v"
    and handler: "\<forall>s0 u d r e. records_without_Error c s0 \<longrightarrow>
             records_without_Error c (snd (handler c s0 u d r e))"
    and inv: "records_without_Error c s"
    and info: "info_Error info = []"
  shows "records_without_Error c (snd (handleURL_handle c handler s item key info resp err))"
proof -
  obtain hr s1 where h: "handler c s (item_URL item) (item_Depth item) resp err = (hr, s1)"
    by (cases "handler c s (item_URL item) (item_Depth item) resp err")
  have s1: "records_without_Error c s1"
    using handler inv h by (metis snd_conv)
  obtain r2 s2 where put: "PutObj (io_fault c) (gob_Encode c) s1 key info = (r2, s2)"
    by (cases "PutObj (io_fault c) (gob_Encode c) s1 key info")
  have s2: "records_without_Error c s2"
    using PutObj_Error [OF codec s1 info put] .
  show ?thesis
    using h put s1 s2
    by (auto simp: handleURL_handle_def split: exec.splits option.splits)
qed

text \<open>The middleware of the package keeps the property when the handler it wraps does.\<close>

lemma middleware_Error:
  assumes codec: "\<forall>v b. gob_Encode c v = Inr b \<longrightarrow>
             info_Error (snd (gob_Decode c b URLInfo_zero)) = info_Error v"
    and wrap: "\<forall>s0 u d r e. records_without_Error c s0 \<longrightarrow>
             records_without_Error c (snd (wrap c s0 u d r e))"
    and inv: "records_without_Error c s"
  shows "records_without_Error c (snd (FollowRedirects wrap c s u depth resp err))"
    and "records_without_Error c (snd (FilterErrors wrap c s u depth resp err))"
    and "records_without_Error c (snd (HandleRetries wrap c s u depth resp err))"
proof -
  obtain hr s1 where h: "wrap c s u depth resp err = (hr, s1)"
    by (cases "wrap c s u depth resp err")
  have s1: "records_without_Error c s1"
    using wrap inv h by (metis snd_conv)
  have logged: "\<And>x. records_without_Error c (s1\<lparr>outlog := outlog s1 @ [x]\<rparr>)"
    using s1 by (simp add: records_without_Error_def)
  have enq: "\<And>link d. records_without_Error c (snd (Enqueue c s1 link d))"
    using Enqueue_Error [OF codec s1] .
  show "records_without_Error c (snd (FollowRedirects wrap c s u depth resp err))"
    using h s1 logged enq
    by (auto simp: FollowRedirects_def Let_def split: exec.splits option.splits sum.splits)
  have fwd: "records_without_Error c (snd (wrap c s u depth resp None))"
    using wrap inv by simp
  show "records_without_Error c (snd (FilterErrors wrap c s u depth resp err))"
    using inv fwd by (auto simp: FilterErrors_def split: option.splits)
  show "records_without_Error c (snd (HandleRetries wrap c s u depth resp err))"
    using inv fwd by (auto simp: HandleRetries_def split: option.splits)
qed

text \<open>
  C10. The engine never assigns the \<open>Error\<close> field. Given a codec that keeps the field
  (the bytes of a record decode, into a zero \<open>URLInfo\<close>, to a record with the same
  \<open>Error\<close>), if every record in the database and every record written so far has an
  empty \<open>Error\<close>, the same holds after \<open>Enqueue\<close>, and after \<open>handleURL\<close> with any fetcher
  (a response or a fetch error) and any handler that keeps the property, as the
  middleware of the package does by calling \<open>Enqueue\<close>.
\<close>

theorem Error_field_never_assigned:
  assumes codec: "\<forall>v b. gob_Encode c v = Inr b \<longrightarrow>
             info_Error (snd (gob_Decode c b URLInfo_zero)) = info_Error v"
    and inv: "records_without_Error c s"
  shows "records_without_Error c (snd (Enqueue c s link depth))
       \<and> ((\<forall>s0 u d r e. records_without_Error c s0 \<longrightarrow>
              records_without_Error c (snd (handler c s0 u d r e)))
          \<longrightarrow> records_without_Error c (snd (handleURL c fetcher handler now s item)))"
proof (intro conjI impI)
  show "records_without_Error c (snd (Enqueue c s link depth))"
    using Enqueue_Error [OF codec inv] .
next
  assume handler: "\<forall>s0 u d r e. records_without_Error c s0 \<longrightarrow>
              records_without_Error c (snd (handler c s0 u d r e))"
  obtain e info0 s1 where
    get: "GetObj (io_fault c) (gob_Decode c) s (''url/'' @ item_URL item) URLInfo_zero
            = ((e, info0), s1)"
    by (metis surj_pair)
  have s1: "info_Error info0 = []" "records_without_Error c s1"
    using GetObj_Error [OF inv get] by simp_all
  let ?s2 = "s1\<lparr>outlog := outlog s1 @ [Printed (item_URL item)]\<rparr>"
  have s2: "records_without_Error c ?s2"
    using s1(2) by (simp add: records_without_Error_def)
  have fin: "\<And>info resp err. info_Error info = [] \<Longrightarrow>
      records_without_Error c
        (snd (handleURL_handle c handler ?s2 item (''url/'' @ item_URL item) info resp err))"
    using handleURL_handle_Error [of c handler ?s2, OF codec handler s2] .
  show "records_without_Error c (snd (handleURL c fetcher handler now s item))"
    using get s1(1) s2 fin
    by (auto simp: handleURL_def Let_def split: prod.splits option.splits)
qed

text \<open>
  On the concrete crawler: the record written after the fetch of \<open>http://a/x\<close>, and the
  one written after a failed fetch of \<open>http://b/\<close>, carry an empty \<open>Error\<close>.
\<close>

theorem Error_field_never_assigned_witness:
  "records_without_Error demo (snd (Enqueue demo init link_x 1))
   \<and> records_without_Error demo (snd (handleURL demo demo_fetch visit 5 init item_x))
   \<and> records_without_Error demo
       (snd (handleURL demo demo_fetch visit 5 init \<lparr>item_URL = ''http://b/'', item_Depth = 0\<rparr>))
   \<and> kv (snd (handleURL demo demo_fetch visit 5 init item_x)) ''url/http://a/x'' = Some ''G''
   \<and> kv (snd (handleURL demo demo_fetch visit 5 init \<lparr>item_URL = ''http://b/'', item_Depth = 0\<rparr>))
       ''url/http://b/'' = Some ''G''
   \<and> info_Error (snd (gob_Decode demo ''G'' URLInfo_zero)) = []"
proof -
  have codec: "\<forall>v b. gob_Encode demo v = Inr b \<longrightarrow>
                 info_Error (snd (gob_Decode demo b URLInfo_zero)) = info_Error v"
    by (auto simp: demo_def demo_Decode_def)
  have inv: "records_without_Error demo init"
    by (simp add: records_without_Error_def init_def)
  have handler: "\<forall>s0 u d r e. records_without_Error demo s0 \<longrightarrow>
                   records_without_Error demo (snd (visit demo s0 u d r e))"
    by (simp add: visit_def records_without_Error_def)
  have written: "kv (snd (handleURL demo demo_fetch visit 5 init item_x)) ''url/http://a/x'' = Some ''G''"
    "kv (snd (handleURL demo demo_fetch visit 5 init \<lparr>item_URL = ''http://b/'', item_Depth = 0\<rparr>))
       ''url/http://b/'' = Some ''G''"
    "info_Error (snd (gob_Decode demo ''G'' URLInfo_zero)) = []"
    by (simp_all add: handleURL_def handleURL_handle_def GetObj_def leveldb_Get_def PutObj_def
        leveldb_Put_def demo_def demo_fetch_def visit_def init_def item_x_def Let_def
        URLInfo_zero_def resp_200_def demo_Decode_def)
  show ?thesis
    using Error_field_never_assigned [OF codec inv, of link_x 1 visit demo_fetch 5 item_x]
      Error_field_never_assigned [OF codec inv, of link_x 1 visit demo_fetch 5
        "\<lparr>item_URL = ''http://b/'', item_Depth = 0\<rparr>"]
      handler written
    by simp
qed

section \<open>Properties of the middleware\<close>

text \<open>
  C4. \<open>HandleRetries H\<close> returns \<open>ErrRetryRequest\<close> in the state it was called in, whatever
  \<open>H\<close> is, when the fetch returned an error, or the status of the response is 429 or at
  least 500. When there is no fetch error and the status of the response is neither, it
  is the call of \<open>H\<close> with the same crawler, URL, depth and response and a nil error.
\<close>

theorem HandleRetries_spec:
  "((err \<noteq> None \<or> (\<exists>r. resp = Some r \<and> (resp_StatusCode r = 429 \<or> 500 \<le> sint (resp_StatusCode r))))
      \<longrightarrow> HandleRetries H c s u depth resp err = (Ret (Some ErrRetryRequest), s))
   \<and> ((err = None \<and> (\<exists>r. resp = Some r \<and> resp_StatusCode r \<noteq> 429 \<and> sint (resp_StatusCode r) < 500))
      \<longrightarrow> HandleRetries H c s u depth resp err = H c s u depth resp None)"
  by (auto simp: HandleRetries_def split: option.splits)

theorem HandleRetries_spec_witness:
  "HandleRetries visit demo init ''http://a/x'' 1 (Some resp_503) None
     = (Ret (Some ErrRetryRequest), init)
   \<and> HandleRetries visit demo init ''http://b/'' 1 None (Some (ErrOther ''no such host''))
     = (Ret (Some ErrRetryRequest), init)
   \<and> HandleRetries visit demo init ''http://a/x'' 1 (Some resp_200) None
     = (Ret None, init\<lparr>outlog := [Printed ''http://a/x'']\<rparr>)"
  using HandleRetries_spec [of None "Some resp_503" visit demo init "''http://a/x''" 1]
    HandleRetries_spec [of "Some (ErrOther ''no such host'')" None visit demo init "''http://b/''" 1]
    HandleRetries_spec [of None "Some resp_200" visit demo init "''http://a/x''" 1]
  by (simp add: resp_503_def resp_200_def visit_def init_def)

text \<open>
  C5. \<open>FollowRedirects H\<close> calls \<open>H\<close> first, with the arguments it was given. If \<open>H\<close>
  stops the process or returns an error, that is the result. If \<open>H\<close> returns nil and the
  fetch returned an error, the result is nil. If \<open>H\<close> returns nil, there is no fetch
  error, the status of the response is in [300, 400) and its \<open>Location\<close> is not empty:
  when \<open>Location\<close> resolves against the URL of the request, the result is that of one
  \<open>Enqueue\<close> of the resolved URL with tag \<open>TagPrimary\<close> at \<open>depth + 1\<close>, in the state \<open>H\<close>
  left; when it does not resolve, the error is logged and the result is nil. For any
  other response the result is nil.
\<close>

theorem FollowRedirects_spec:
  assumes inner: "wrap c s u depth resp err = (hr, s1)"
  shows "(\<forall>a. hr = Abort a \<longrightarrow> FollowRedirects wrap c s u depth resp err = (Abort a, s1))
       \<and> (\<forall>herr. hr = Ret (Some herr) \<longrightarrow>
            FollowRedirects wrap c s u depth resp err = (Ret (Some herr), s1))
       \<and> (hr = Ret None \<and> err \<noteq> None \<longrightarrow>
            FollowRedirects wrap c s u depth resp err = (Ret None, s1))
       \<and> (\<forall>r. hr = Ret None \<and> err = None \<and> resp = Some r
              \<and> 300 \<le> sint (resp_StatusCode r) \<and> sint (resp_StatusCode r) < 400
              \<and> resp_Location r \<noteq> [] \<longrightarrow>
            (\<forall>loc. url_ResolveReference c (resp_RequestURL r) (resp_Location r) = Inr loc \<longrightarrow>
               FollowRedirects wrap c s u depth resp err
                 = Enqueue c s1 \<lparr>link_URL = loc, link_Tag = TagPrimary\<rparr> (depth + 1))
          \<and> (\<forall>uerr. url_ResolveReference c (resp_RequestURL r) (resp_Location r) = Inl uerr \<longrightarrow>
               FollowRedirects wrap c s u depth resp err
                 = (Ret None, s1\<lparr>outlog := outlog s1 @ [LogLocationError uerr]\<rparr>)))
       \<and> (\<forall>r. hr = Ret None \<and> err = None \<and> resp = Some r
              \<and> \<not> (300 \<le> sint (resp_StatusCode r) \<and> sint (resp_StatusCode r) < 400
                    \<and> resp_Location r \<noteq> []) \<longrightarrow>
            FollowRedirects wrap c s u depth resp err = (Ret None, s1))"
  using inner by (auto simp: FollowRedirects_def Let_def)

text \<open>
  On the concrete crawler: a 301 from \<open>http://a/old\<close> to \<open>http://a/x\<close>, handled at depth 2,
  adds \<open>http://a/x\<close> to the frontier; a \<open>Location\<close> that does not parse is logged.
\<close>

theorem FollowRedirects_spec_witness:
  "FollowRedirects visit demo init ''http://a/old'' 2 (Some resp_301) None
     = Enqueue demo (init\<lparr>outlog := [Printed ''http://a/old'']\<rparr>) link_x 3
   \<and> FollowRedirects visit demo init ''http://a/old'' 2 (Some resp_301) None
     = (Ret None,
        \<lparr>kv = [''url/http://a/x'' \<mapsto> ''G''], frontier = [(''a'', ''{http://a/x'')],
          calls = [DBGet ''url/http://a/x'', QueueAdd ''a'' ''{http://a/x'', DBPut ''url/http://a/x'' ''G''],
          outlog = [Printed ''http://a/old'']\<rparr>)
   \<and> FollowRedirects visit demo init ''http://a/old'' 2 (Some (resp_301\<lparr>resp_Location := ''%''\<rparr>)) None
     = (Ret None,
        init\<lparr>outlog := [Printed ''http://a/old'', LogLocationError (ErrOther ''invalid URL escape'')]\<rparr>)"
proof -
  have inner: "visit demo init ''http://a/old'' 2 (Some resp_301) None
                 = (Ret None, init\<lparr>outlog := [Printed ''http://a/old'']\<rparr>)"
    "visit demo init ''http://a/old'' 2 (Some (resp_301\<lparr>resp_Location := ''%''\<rparr>)) None
                 = (Ret None, init\<lparr>outlog := [Printed ''http://a/old'']\<rparr>)"
    by (simp_all add: visit_def init_def)
  have resolve: "url_ResolveReference demo (resp_RequestURL resp_301) (resp_Location resp_301)
                   = Inr ''http://a/x''"
    "url_ResolveReference demo (resp_RequestURL (resp_301\<lparr>resp_Location := ''%''\<rparr>))
       (resp_Location (resp_301\<lparr>resp_Location := ''%''\<rparr>)) = Inl (ErrOther ''invalid URL escape'')"
    by (simp_all add: demo_def resp_301_def)
  have status: "300 \<le> sint (resp_StatusCode resp_301)" "sint (resp_StatusCode resp_301) < 400"
    "resp_Location resp_301 \<noteq> []"
    by (simp_all add: resp_301_def)
  have enq: "Enqueue demo (init\<lparr>outlog := [Printed ''http://a/old'']\<rparr>) link_x 3
     = (Ret None,
        \<lparr>kv = [''url/http://a/x'' \<mapsto> ''G''], frontier = [(''a'', ''{http://a/x'')],
          calls = [DBGet ''url/http://a/x'', QueueAdd ''a'' ''{http://a/x'', DBPut ''url/http://a/x'' ''G''],
          outlog = [Printed ''http://a/old'']\<rparr>)"
    by (simp add: normalizeURL_def Enqueue_def demo_def link_x_def init_def GetObj_def
        leveldb_Get_def addNewURLToQueue_def queue_Add_def PutObj_def leveldb_Put_def
        demo_Host_def URLInfo_zero_def Let_def)
  show ?thesis
    using FollowRedirects_spec [where wrap = visit and c = demo and s = init
        and u = "''http://a/old''" and depth = 2 and resp = "Some resp_301" and err = None,
        OF inner(1)]
      FollowRedirects_spec [where wrap = visit and c = demo and s = init
        and u = "''http://a/old''" and depth = 2
        and resp = "Some (resp_301\<lparr>resp_Location := ''%''\<rparr>)" and err = None,
        OF inner(2)]
      resolve status enq
    by (simp add: link_x_def)
qed

end
